theory Spec2Isabelle
  imports Complex_Main "HOL-Library.Sublist"
begin

section \<open>JavaScript values and truthiness\<close>

text \<open>
  The tweaks arguments of the code generators are typed \<^verbatim>\<open>any\<close>. They are modelled as
  plain JSON-like data; the generators only test them for truthiness and hand them to
  \<^verbatim>\<open>JSON.stringify\<close>. Numbers are restricted to integers (no NaN, no fractions).
\<close>

datatype jsval =
    JUndefined
  | JNull
  | JBool bool
  | JNum int
  | JStr string
  | JArr "jsval list"
  | JObj "(string \<times> jsval) list"

fun truthy :: "jsval \<Rightarrow> bool" where
  "truthy JUndefined = False"
| "truthy JNull = False"
| "truthy (JBool b) = b"
| "truthy (JNum n) = (n \<noteq> 0)"
| "truthy (JStr s) = (s \<noteq> [])"
| "truthy (JArr xs) = True"
| "truthy (JObj kvs) = True"

text \<open>An optional string (\<^verbatim>\<open>string | undefined\<close>) is truthy when present and non-empty.\<close>

fun truthy_str :: "string option \<Rightarrow> bool" where
  "truthy_str None = False"
| "truthy_str (Some s) = (s \<noteq> [])"

text \<open>\<^verbatim>\<open>a || b\<close> on an optional string \<open>a\<close> and a string \<open>b\<close>.\<close>

fun js_or :: "string option \<Rightarrow> string \<Rightarrow> string" where
  "js_or None d = d"
| "js_or (Some s) d = (if s = [] then d else s)"

abbreviation TAB :: char where "TAB \<equiv> CHR 0x09"
abbreviation SQ :: char where "SQ \<equiv> CHR 0x27"

section \<open>Generated API sample code\<close>

text \<open>
  The state read from outside the parameter record: \<^verbatim>\<open>window.location\<close> and the
  \<^verbatim>\<open>inputs\<close>/\<^verbatim>\<open>outputs\<close> of the flow store. \<^verbatim>\<open>JSON.stringify(v, null, n)\<close> is a
  platform function and is passed in as the parameter \<open>stringify\<close>.
\<close>

record location =
  protocol :: string
  host :: string

record port =
  port_type :: string

record flowStore =
  inputs :: "port list"
  outputs :: "port list"

record GetCodeType =
  flowId :: string
  isAuth :: bool
  tweaksBuildedObject :: jsval
  endpointName :: "string option"
  activeTweaks :: bool

definition getJsApiCode ::
  "(jsval \<Rightarrow> nat \<Rightarrow> string) \<Rightarrow> location \<Rightarrow> flowStore \<Rightarrow> GetCodeType \<Rightarrow> string" where
  \<open>getJsApiCode stringify loc store a =
    (let tweaksString =
           (if truthy (tweaksBuildedObject a) then stringify (tweaksBuildedObject a) 8
            else ''{}'');
         hasChatInput = list_ex (\<lambda>input. port_type input = ''ChatInput'') (inputs store);
         hasChatOutput = list_ex (\<lambda>output. port_type output = ''ChatOutput'') (outputs store)
     in (if activeTweaks a then ''''
         else ''let inputValue = ""; // Insert input value here\<newline>\<newline>'')
        @ ''fetch(\<newline>''
        @ ''  "'' @ protocol loc @ ''//'' @ host loc @ ''/api/v1/run/''
        @ js_or (endpointName a) (flowId a)
        @ ''?stream=false",\<newline>''
        @ ''  {\<newline>''
        @ ''    method: "POST",\<newline>''
        @ ''    headers: {\<newline>''
        @ ''      "Authorization": "Bearer <TOKEN>",\<newline>''
        @ ''      "Content-Type": "application/json",''
        @ (if isAuth a then ''\<newline>'' @ [TAB, TAB, TAB] @ ''"x-api-key": <your api key>''
           else '''')
        @ ''\<newline>''
        @ ''    },\<newline>''
        @ ''    body: JSON.stringify({''
        @ (if activeTweaks a then ''''
           else ''\<newline>'' @ [TAB, TAB, TAB] @ ''input_value: inputValue, '')
        @ ''\<newline>''
        @ ''      output_type: '' @ (if hasChatOutput then ''"chat"'' else ''"text"'')
        @ '',\<newline>''
        @ ''      input_type: '' @ (if hasChatInput then ''"chat"'' else ''"text"'')
        @ '',\<newline>''
        @ ''      tweaks: '' @ tweaksString @ ''\<newline>''
        @ ''    }),\<newline>''
        @ ''  },\<newline>''
        @ '')\<newline>''
        @ ''  .then(res => res.json())\<newline>''
        @ ''  .then(data => console.log(data))\<newline>''
        @ ''  .catch(error => console.error('Error:', error));\<newline>'')\<close>

record NewJsApiArgs =
  streaming :: bool
  flowId :: string
  isAuthenticated :: bool
  input_value :: string
  input_type :: string
  output_type :: string
  tweaksObject :: jsval
  activeTweaks :: bool

definition getNewJsApiCode ::
  "(jsval \<Rightarrow> nat \<Rightarrow> string) \<Rightarrow> location \<Rightarrow> NewJsApiArgs \<Rightarrow> string" where
  \<open>getNewJsApiCode stringify loc a =
    (let host = location.host loc;
         protocol = location.protocol loc;
         apiUrl = protocol @ ''//'' @ host @ ''/api/v1/run/'' @ NewJsApiArgs.flowId a;
         tweaksString =
           (if truthy (tweaksObject a) \<and> NewJsApiArgs.activeTweaks a
            then stringify (tweaksObject a) 2 else ''{}'')
     in ''const payload = {\<newline>''
        @ ''    "input_value": "'' @ input_value a @ ''",\<newline>''
        @ ''    "output_type": "'' @ output_type a @ ''",\<newline>''
        @ ''    "input_type": "'' @ input_type a @ ''"''
        @ (if NewJsApiArgs.activeTweaks a \<and> truthy (tweaksObject a)
           then '',\<newline>    "tweaks": '' @ tweaksString
           else '''')
        @ ''\<newline>''
        @ ''};\<newline>''
        @ ''const options = {\<newline>''
        @ ''    method: 'POST',\<newline>''
        @ ''    headers: {\<newline>''
        @ ''        'Content-Type': 'application/json'' @ [SQ]
        @ (if isAuthenticated a then '',\<newline>        "x-api-key": "YOUR-API-KEY"''
           else '''')
        @ ''\<newline>''
        @ ''    },\<newline>''
        @ ''    body: JSON.stringify(payload)\<newline>''
        @ ''};\<newline>''
        @ ''fetch('' @ [SQ] @ apiUrl @ ''?stream=''
        @ (if streaming a then ''true'' else ''false'') @ [SQ] @ '')\<newline>''
        @ ''    .then(response => response.json())\<newline>''
        @ ''    .then(response => console.log(response))\<newline>''
        @ ''    .catch(err => console.error(err));\<newline>''
        @ ''    '')\<close>

section \<open>Bulk duplication of the selected flows\<close>

text \<open>
  \<^verbatim>\<open>useDuplicateFlows\<close> receives its collaborators as arguments. The callbacks are
  modelled by the log of calls made to them; \<^verbatim>\<open>addFlow\<close> returns a promise whose
  settlement is an event from outside.
\<close>

record flow =
  flow_id :: string

datatype call =
    AddFlow bool "flow option"
  | ResetFilter
  | GetFoldersApi bool
  | GetFolderById "string option"
  | SetSelectedFlowsComponentsCards "string list"
  | SetSuccessData string

datatype promise = Pending | Fulfilled | Rejected

record useDuplicateFlows =
  selectedFlowsComponentsCards :: "string list"
  allFlows :: "flow list"
  folderId :: "string option"
  myCollectionId :: "string option"

record dupState =
  calls :: "call list"
  requests :: "promise list"
  all_promise :: promise
  then_promise :: promise
  unhandled_rejection :: bool

text \<open>The calls of \<^verbatim>\<open>selectedFlowsComponentsCards.map(...)\<close>, in order.\<close>

definition issue_requests :: "useDuplicateFlows \<Rightarrow> call list" where
  "issue_requests p =
     map (\<lambda>selectedFlow. AddFlow True (find (\<lambda>flow. flow_id flow = selectedFlow) (allFlows p)))
         (selectedFlowsComponentsCards p)"

text \<open>The body of the \<^verbatim>\<open>.then(() => { ... })\<close> callback.\<close>

definition on_fulfilled :: "useDuplicateFlows \<Rightarrow> call list" where
  "on_fulfilled p =
     [ResetFilter, GetFoldersApi True]
     @ (if \<not> truthy_str (folderId p) \<or> folderId p = myCollectionId p
        then [GetFolderById (if truthy_str (folderId p) then folderId p else myCollectionId p)]
        else [])
     @ [SetSelectedFlowsComponentsCards [],
        SetSuccessData ''Flows duplicated successfully'']"

text \<open>
  \<^verbatim>\<open>Promise.all(ps).then(f)\<close>: while the aggregate is pending, it rejects as soon as one
  input promise is rejected and fulfils once all are fulfilled. Only a fulfilment
  callback is registered, so on fulfilment \<open>f\<close> runs, and on rejection the derived
  promise rejects with no handler attached to it.
\<close>

definition settle_all :: "useDuplicateFlows \<Rightarrow> dupState \<Rightarrow> dupState" where
  "settle_all p s =
     (if all_promise s \<noteq> Pending then s
      else if list_ex (\<lambda>r. r = Rejected) (requests s)
        then s\<lparr>all_promise := Rejected, then_promise := Rejected, unhandled_rejection := True\<rparr>
      else if list_all (\<lambda>r. r = Fulfilled) (requests s)
        then s\<lparr>calls := calls s @ on_fulfilled p, all_promise := Fulfilled,
               then_promise := Fulfilled\<rparr>
      else s)"

definition handleDuplicate :: "useDuplicateFlows \<Rightarrow> dupState" where
  "handleDuplicate p =
     settle_all p
       \<lparr>calls = issue_requests p,
        requests = map (\<lambda>_. Pending) (selectedFlowsComponentsCards p),
        all_promise = Pending, then_promise = Pending, unhandled_rejection = False\<rparr>"

text \<open>Settlement of the \<open>i\<close>-th request; a promise settles at most once.\<close>

datatype settlement = Resolve nat | Reject nat

fun settle :: "useDuplicateFlows \<Rightarrow> dupState \<Rightarrow> settlement \<Rightarrow> dupState" where
  "settle p s (Resolve i) =
     (if i < length (requests s) \<and> requests s ! i = Pending
      then settle_all p (s\<lparr>requests := (requests s)[i := Fulfilled]\<rparr>) else s)"
| "settle p s (Reject i) =
     (if i < length (requests s) \<and> requests s ! i = Pending
      then settle_all p (s\<lparr>requests := (requests s)[i := Rejected]\<rparr>) else s)"

definition run_duplicate :: "useDuplicateFlows \<Rightarrow> settlement list \<Rightarrow> dupState" where
  "run_duplicate p evs = foldl (settle p) (handleDuplicate p) evs"

fun is_AddFlow :: "call \<Rightarrow> bool" where
  "is_AddFlow (AddFlow b f) = True"
| "is_AddFlow c = False"

section \<open>A file row of the file manager\<close>

text \<open>
  \<^verbatim>\<open>FileRendererComponent\<close>. The optional callback props are modelled by whether they are
  supplied; a call to one is recorded as an effect. \<^verbatim>\<open>FILE_ICONS\<close> is imported from
  elsewhere and is a parameter of the rendering functions.
\<close>

record FileType =
  file_id :: string
  name :: string
  path :: string
  progress :: "real option"

record icon_entry =
  icon :: "string option"
  color :: "string option"

record props =
  "file" :: FileType
  handleFileSelect :: bool
  selectedFiles :: "string list option"
  handleRemove :: bool
  handleRename :: bool
  index :: nat

record rstate =
  openRename :: bool
  newName :: string

datatype effect =
    StopPropagation
  | CallFileSelect string
  | CallRemove string
  | CallRename string string

datatype handler =
    RowClick
  | CheckboxAreaClick
  | CheckedChange
  | InputChange
  | InputBlur
  | InputKeyDown
  | InputClick
  | NameDoubleClick
  | TryAgainClick
  | RemoveClick
  | MenuButtonClick
  | HandleOpenRename

text \<open>\<^verbatim>\<open>"a.b".split(".")\<close>: the result always has at least one element.\<close>

fun split_on :: "char \<Rightarrow> string \<Rightarrow> string list" where
  "split_on c [] = [[]]"
| "split_on c (x # xs) =
     (if x = c then [] # split_on c xs
      else (case split_on c xs of [] \<Rightarrow> [[x]] | w # ws \<Rightarrow> (x # w) # ws))"

definition pop :: "'a list \<Rightarrow> 'a option" where
  "pop xs = (if xs = [] then None else Some (last xs))"

text \<open>\<^verbatim>\<open>const type = file.path.split(".").pop() ?? ""\<close>\<close>

definition file_type :: "FileType \<Rightarrow> string" where
  "file_type f = (case pop (split_on (CHR ''.'') (path f)) of None \<Rightarrow> [] | Some t \<Rightarrow> t)"

text \<open>\<^verbatim>\<open>!file.progress\<close>: true when the field is absent and when it is zero.\<close>

definition not_progress :: "FileType \<Rightarrow> bool" where
  "not_progress f = (case progress f of None \<Rightarrow> True | Some q \<Rightarrow> q = 0)"

text \<open>\<^verbatim>\<open>cb?.(args)\<close>: the call happens only when the callback is supplied.\<close>

definition optional_call :: "bool \<Rightarrow> effect \<Rightarrow> effect list" where
  "optional_call supplied e = (if supplied then [e] else [])"

text \<open>
  The event handlers. The string argument is the payload of the event: \<^verbatim>\<open>e.key\<close> for
  \<^verbatim>\<open>onKeyDown\<close>, \<^verbatim>\<open>e.target.value\<close> for \<^verbatim>\<open>onChange\<close>.
\<close>

fun fire :: "props \<Rightarrow> rstate \<Rightarrow> handler \<Rightarrow> string \<Rightarrow> rstate \<times> effect list" where
  "fire p st RowClick v =
     (st, if not_progress (file p)
          then optional_call (handleFileSelect p) (CallFileSelect (path (file p))) else [])"
| "fire p st CheckboxAreaClick v = (st, [StopPropagation])"
| "fire p st CheckedChange v =
     (st, optional_call (handleFileSelect p) (CallFileSelect (path (file p))))"
| "fire p st InputChange v = (st\<lparr>newName := v\<rparr>, [])"
| "fire p st InputBlur v =
     (st\<lparr>openRename := False\<rparr>,
      optional_call (handleRename p) (CallRename (file_id (file p)) (newName st)))"
| "fire p st InputKeyDown v =
     (if v = ''Enter''
      then (st\<lparr>openRename := False\<rparr>,
            optional_call (handleRename p) (CallRename (file_id (file p)) (newName st)))
      else (st, []))"
| "fire p st InputClick v = (st, [StopPropagation])"
| "fire p st NameDoubleClick v =
     (if not_progress (file p) then st\<lparr>openRename := True\<rparr> else st, [StopPropagation])"
| "fire p st TryAgainClick v = (st, [StopPropagation])"
| "fire p st RemoveClick v =
     (st, StopPropagation # optional_call (handleRemove p) (CallRemove (path (file p))))"
| "fire p st MenuButtonClick v = (st, [StopPropagation])"
| "fire p st HandleOpenRename v =
     (if handleRename p then st\<lparr>openRename := True\<rparr> else st, [])"

text \<open>
  \<^verbatim>\<open>useState(file.name)\<close> and \<^verbatim>\<open>useEffect(() => setNewName(file.name), [openRename])\<close>:
  the effect runs after mounting and after every update that changes \<^verbatim>\<open>openRename\<close>.
\<close>

definition mount :: "props \<Rightarrow> rstate" where
  "mount p = \<lparr>openRename = False, newName = name (file p)\<rparr>"

definition useEffect_openRename :: "props \<Rightarrow> rstate \<Rightarrow> rstate \<Rightarrow> rstate" where
  "useEffect_openRename p before after =
     (if openRename after \<noteq> openRename before then after\<lparr>newName := name (file p)\<rparr>
      else after)"

definition dispatch :: "props \<Rightarrow> rstate \<Rightarrow> handler \<Rightarrow> string \<Rightarrow> rstate \<times> effect list" where
  "dispatch p st h v =
     (case fire p st h v of (st', effs) \<Rightarrow> (useEffect_openRename p st st', effs))"

text \<open>
  The rendered tree: elements with their class names, event handlers and children. A
  \<^verbatim>\<open>className\<close> is the list of the truthy arguments of \<^verbatim>\<open>cn\<close>; \<open>RoundedPercent q\<close>
  stands for the text \<^verbatim>\<open>Math.round(q * 100)\<close>. Presentational attributes that no handler
  reads (\<^verbatim>\<open>key\<close>, \<^verbatim>\<open>size\<close>, \<^verbatim>\<open>variant\<close>, \<^verbatim>\<open>autoFocus\<close>, the class of the input) are left
  out.
\<close>

datatype node =
    Elem string "string list" "(string \<times> handler) list" "node list"
  | Text string
  | RoundedPercent real
  | Checkbox "bool option" handler
  | ForwardedIconComponent string "string list"
  | Input string "(string \<times> handler) list"

fun cn :: "string option list \<Rightarrow> string list" where
  "cn [] = []"
| "cn (None # cs) = cn cs"
| "cn (Some c # cs) = (if c = [] then cn cs else c # cn cs)"

definition render_select :: "props \<Rightarrow> node list" where
  "render_select p =
     (if handleFileSelect p
      then [Elem ''div''
              (cn [Some ''flex'',
                   if progress (file p) \<noteq> None
                   then Some ''pointer-events-none cursor-not-allowed'' else None])
              [(''onClick'', CheckboxAreaClick)]
              [Checkbox (map_option (\<lambda>fs. path (file p) \<in> set fs) (selectedFiles p))
                 CheckedChange]]
      else [])"

definition icon_name :: "(string \<rightharpoonup> icon_entry) \<Rightarrow> string \<Rightarrow> string" where
  "icon_name FILE_ICONS t =
     (case FILE_ICONS t of None \<Rightarrow> ''File''
      | Some e \<Rightarrow> (case icon e of None \<Rightarrow> ''File'' | Some i \<Rightarrow> i))"

definition icon_color :: "(string \<rightharpoonup> icon_entry) \<Rightarrow> string \<Rightarrow> string option" where
  "icon_color FILE_ICONS t = (case FILE_ICONS t of None \<Rightarrow> None | Some e \<Rightarrow> color e)"

definition render_leading :: "(string \<rightharpoonup> icon_entry) \<Rightarrow> props \<Rightarrow> node" where
  "render_leading FILE_ICONS p =
     (case progress (file p) of
        None \<Rightarrow>
          ForwardedIconComponent (icon_name FILE_ICONS (file_type (file p)))
            (cn [Some ''h-6 w-6 shrink-0'', icon_color FILE_ICONS (file_type (file p))])
      | Some q \<Rightarrow>
          if q \<noteq> - 1
          then Elem ''div''
                 [''flex h-6 items-center justify-center text-xs font-semibold text-muted-foreground'']
                 [] [RoundedPercent q, Text ''%'']
          else ForwardedIconComponent (icon_name FILE_ICONS (file_type (file p)))
                 (cn [Some ''h-6 w-6 shrink-0'', Some ''text-placeholder-foreground'']))"

definition render_name :: "props \<Rightarrow> rstate \<Rightarrow> node" where
  "render_name p st =
     (if openRename st
      then Elem ''div'' [''w-full''] []
             [Input (newName st)
                [(''onChange'', InputChange), (''onBlur'', InputBlur),
                 (''onKeyDown'', InputKeyDown), (''onClick'', InputClick)]]
      else Elem ''span''
             (cn [Some ''cursor-text text-sm font-medium'',
                  if progress (file p) \<noteq> None \<and> progress (file p) = Some (- 1)
                  then Some ''pointer-events-none text-placeholder-foreground'' else None])
             [(''onDoubleClick'', NameDoubleClick)]
             [Text (name (file p))])"

definition render_failed :: "props \<Rightarrow> node list" where
  "render_failed p =
     (if progress (file p) \<noteq> None \<and> progress (file p) = Some (- 1)
      then [Elem ''span'' [''text-[13px] text-primary''] []
              [Text ''Upload failed,'', Text '' '',
               Elem ''span'' [''cursor-pointer text-accent-pink-foreground underline'']
                 [(''onClick'', TryAgainClick)] [Text ''try again?'']]]
      else [])"

definition render_trailing :: "props \<Rightarrow> node list" where
  "render_trailing p =
     (if handleRemove p
      then [Elem ''Button'' [''hover:bg-accent''] [(''onClick'', RemoveClick)]
              [ForwardedIconComponent ''X'' [''h-5 w-5 shrink-0 text-muted-foreground'']]]
      else if progress (file p) = None
      then [Elem ''FilesContextMenuComponent'' [] [(''handleRename'', HandleOpenRename)]
              [Elem ''Button'' [''hover:bg-secondary-foreground/5'']
                 [(''onClick'', MenuButtonClick)]
                 [ForwardedIconComponent ''EllipsisVertical'' [''h-5 w-5 shrink-0'']]]]
      else [])"

definition FileRendererComponent ::
  "(string \<rightharpoonup> icon_entry) \<Rightarrow> props \<Rightarrow> rstate \<Rightarrow> node" where
  "FileRendererComponent FILE_ICONS p st =
     Elem ''div''
       (cn [Some ''flex items-center justify-between rounded-lg py-2'',
            if handleFileSelect p then Some ''cursor-pointer px-3 hover:bg-accent''
            else Some []])
       [(''onClick'', RowClick)]
       ([Elem ''div'' [''flex items-center gap-4''] []
           (render_select p
            @ [Elem ''div'' [''flex items-center gap-2''] []
                 ([render_leading FILE_ICONS p, render_name p st] @ render_failed p)])]
        @ render_trailing p)"

text \<open>All nodes of a tree, and the literal text it shows, in document order.\<close>

fun subnodes :: "node \<Rightarrow> node list" where
  "subnodes (Elem t cs hs ks) = Elem t cs hs ks # concat (map subnodes ks)"
| "subnodes n = [n]"

fun static_text :: "node \<Rightarrow> string" where
  "static_text (Elem t cs hs ks) = concat (map static_text ks)"
| "static_text (Text s) = s"
| "static_text n = []"

section \<open>Invariant of the duplication run and sample inputs\<close>

text \<open>
  What holds in every state of a duplication run, by the state of the aggregate promise.
\<close>

definition dup_inv :: "useDuplicateFlows \<Rightarrow> dupState \<Rightarrow> bool" where
  "dup_inv p s =
     (length (requests s) = length (selectedFlowsComponentsCards p) \<and>
      (case all_promise s of
         Pending \<Rightarrow>
           calls s = issue_requests p \<and> Rejected \<notin> set (requests s) \<and>
           Pending \<in> set (requests s) \<and> then_promise s = Pending \<and> \<not> unhandled_rejection s
       | Fulfilled \<Rightarrow>
           calls s = issue_requests p @ on_fulfilled p \<and>
           list_all (\<lambda>r. r = Fulfilled) (requests s) \<and>
           then_promise s = Fulfilled \<and> \<not> unhandled_rejection s
       | Rejected \<Rightarrow>
           calls s = issue_requests p \<and> Rejected \<in> set (requests s) \<and>
           then_promise s = Rejected \<and> unhandled_rejection s))"

definition sample_stringify :: "jsval \<Rightarrow> nat \<Rightarrow> string" where
  "sample_stringify v n = ''{...}''"

definition sample_loc :: location where
  "sample_loc = \<lparr>protocol = ''http:'', host = ''localhost:7860''\<rparr>"

definition sample_new_args :: NewJsApiArgs where
  "sample_new_args =
     \<lparr>streaming = True, flowId = ''f1'', isAuthenticated = True, input_value = ''hello'',
      input_type = ''chat'', output_type = ''text'',
      tweaksObject = JObj [(''Prompt-1'', JObj [(''template'', JStr ''x'')])],
      activeTweaks = False\<rparr>"

definition sample_js_args :: GetCodeType where
  "sample_js_args =
     \<lparr>GetCodeType.flowId = ''f1'', isAuth = True,
      tweaksBuildedObject = JObj [(''Prompt-1'', JObj [(''template'', JStr ''x'')])],
      endpointName = Some ''my-endpoint'', GetCodeType.activeTweaks = True\<rparr>"

definition sample_store :: flowStore where
  "sample_store = \<lparr>inputs = [\<lparr>port_type = ''TextInput''\<rparr>], outputs = []\<rparr>"

definition sample_chat_store :: flowStore where
  "sample_chat_store = \<lparr>inputs = [], outputs = [\<lparr>port_type = ''ChatOutput''\<rparr>]\<rparr>"

definition sample_empty_store :: flowStore where
  "sample_empty_store = \<lparr>inputs = [], outputs = []\<rparr>"

definition sample_dup :: useDuplicateFlows where
  "sample_dup =
     \<lparr>selectedFlowsComponentsCards = [''a'', ''b''], allFlows = [\<lparr>flow_id = ''a''\<rparr>],
      folderId = None, myCollectionId = Some ''c''\<rparr>"

definition sample_file :: FileType where
  "sample_file =
     \<lparr>file_id = ''42'', name = ''notes.xyz'', path = ''user/notes.xyz'', progress = None\<rparr>"

definition sample_props :: props where
  "sample_props =
     \<lparr>file = sample_file, handleFileSelect = True, selectedFiles = Some [],
      handleRemove = False, handleRename = True, index = 0\<rparr>"

definition sample_open :: rstate where
  "sample_open = \<lparr>openRename = True, newName = ''draft''\<rparr>"

definition sample_closed :: rstate where
  "sample_closed = \<lparr>openRename = False, newName = ''notes.xyz''\<rparr>"

section \<open>Properties of the generated sample code\<close>

lemma sublist_skip: "sublist xs ys \<Longrightarrow> sublist xs (ps @ ys)"
  by (metis sublist_appendI sublist_order.order_trans sublist_append_leftI)

lemma sublist_seg: "prefix xs ys \<Longrightarrow> sublist (s @ xs) (s @ ys)"
  by (metis prefix_imp_sublist same_prefix_prefix)

text \<open>
  The code returned by \<^verbatim>\<open>getNewJsApiCode\<close> ends with a call of \<^verbatim>\<open>fetch\<close> whose only
  argument is the URL: the \<^verbatim>\<open>options\<close> object defined before it is not passed on, unlike
  in the code returned by \<^verbatim>\<open>getJsApiCode\<close>.
\<close>

lemma getNewJsApiCode_fetch_without_options:
  \<open>suffix (''};\<newline>''
        @ ''fetch('' @ [SQ] @ protocol loc @ ''//'' @ host loc @ ''/api/v1/run/''
        @ NewJsApiArgs.flowId a @ ''?stream=''
        @ (if streaming a then ''true'' else ''false'') @ [SQ] @ '')\<newline>''
        @ ''    .then(response => response.json())\<newline>''
        @ ''    .then(response => console.log(response))\<newline>''
        @ ''    .catch(err => console.error(err));\<newline>''
        @ ''    '')
     (getNewJsApiCode S loc a)\<close>
  unfolding getNewJsApiCode_def Let_def
  apply ((simp only: append_assoc)?)
  apply ((rule suffix_order.refl | rule suffix_appendI)+)
  done

text \<open>
  Claim C1, as amended, about the returned text, into which all values are spliced as
  they are, without escaping. The text returned by \<^verbatim>\<open>getNewJsApiCode\<close> starts with the
  definition of a \<^verbatim>\<open>payload\<close> object whose entries \<^verbatim>\<open>"input_value"\<close>, \<^verbatim>\<open>"output_type"\<close>
  and \<^verbatim>\<open>"input_type"\<close> hold the input value, the output type and the input type of the
  parameter record between double quotes, and whose entry \<^verbatim>\<open>"tweaks"\<close> holds the
  stringified tweaks object and is present only when \<^verbatim>\<open>activeTweaks\<close> is set and the
  tweaks object is truthy; then comes the definition of an \<^verbatim>\<open>options\<close> object with the
  method POST, the content type header, the \<^verbatim>\<open>x-api-key\<close> header exactly when
  \<^verbatim>\<open>isAuthenticated\<close> is set, and the stringified payload as body; and the text contains
  a call of \<^verbatim>\<open>fetch\<close> whose first argument is the string
  \<^verbatim>\<open><protocol>//<host>/api/v1/run/<flowId>?stream=<streaming>\<close>. The text returned by
  \<^verbatim>\<open>getJsApiCode\<close> is, after a line declaring \<^verbatim>\<open>inputValue\<close> that is present only when
  \<^verbatim>\<open>activeTweaks\<close> is not set, one call of \<^verbatim>\<open>fetch\<close> with the string
  \<^verbatim>\<open><protocol>//<host>/api/v1/run/<endpointName || flowId>?stream=false\<close> and an object
  with the method POST, the headers (with \<^verbatim>\<open>x-api-key\<close> exactly when \<^verbatim>\<open>isAuth\<close> is set)
  and a body that stringifies an object holding \<^verbatim>\<open>input_value: inputValue\<close> only when
  \<^verbatim>\<open>activeTweaks\<close> is not set, the output and input type tags computed from the flow
  store, and the tweaks string, followed by the handlers of the response.
\<close>

theorem sample_code_text:
  \<open>prefix (''const payload = {\<newline>''
        @ ''    "input_value": "'' @ input_value a @ ''",\<newline>''
        @ ''    "output_type": "'' @ output_type a @ ''",\<newline>''
        @ ''    "input_type": "'' @ input_type a @ ''"''
        @ (if NewJsApiArgs.activeTweaks a \<and> truthy (tweaksObject a)
           then '',\<newline>    "tweaks": '' @ S (tweaksObject a) 2
           else '''')
        @ ''\<newline>''
        @ ''};\<newline>''
        @ ''const options = {\<newline>''
        @ ''    method: 'POST',\<newline>''
        @ ''    headers: {\<newline>''
        @ ''        'Content-Type': 'application/json'' @ [SQ]
        @ (if isAuthenticated a then '',\<newline>        "x-api-key": "YOUR-API-KEY"''
           else '''')
        @ ''\<newline>''
        @ ''    },\<newline>''
        @ ''    body: JSON.stringify(payload)\<newline>''
        @ ''};\<newline>'')
     (getNewJsApiCode S loc a) \<and>
   sublist (''fetch('' @ [SQ] @ protocol loc @ ''//'' @ host loc @ ''/api/v1/run/''
            @ NewJsApiArgs.flowId a @ ''?stream=''
            @ (if streaming a then ''true'' else ''false'') @ [SQ])
     (getNewJsApiCode S loc a) \<and>
   getJsApiCode S loc store b =
     (if GetCodeType.activeTweaks b then ''''
      else ''let inputValue = ""; // Insert input value here\<newline>\<newline>'')
     @ ''fetch(\<newline>''
     @ ''  "'' @ protocol loc @ ''//'' @ host loc @ ''/api/v1/run/''
     @ js_or (endpointName b) (GetCodeType.flowId b)
     @ ''?stream=false",\<newline>''
     @ ''  {\<newline>''
     @ ''    method: "POST",\<newline>''
     @ ''    headers: {\<newline>''
     @ ''      "Authorization": "Bearer <TOKEN>",\<newline>''
     @ ''      "Content-Type": "application/json",''
     @ (if isAuth b then ''\<newline>'' @ [TAB, TAB, TAB] @ ''"x-api-key": <your api key>''
        else '''')
     @ ''\<newline>''
     @ ''    },\<newline>''
     @ ''    body: JSON.stringify({''
     @ (if GetCodeType.activeTweaks b then ''''
        else ''\<newline>'' @ [TAB, TAB, TAB] @ ''input_value: inputValue, '')
     @ ''\<newline>''
     @ ''      output_type: ''
     @ (if list_ex (\<lambda>output. port_type output = ''ChatOutput'') (outputs store)
        then ''"chat"'' else ''"text"'')
     @ '',\<newline>''
     @ ''      input_type: ''
     @ (if list_ex (\<lambda>input. port_type input = ''ChatInput'') (inputs store)
        then ''"chat"'' else ''"text"'')
     @ '',\<newline>''
     @ ''      tweaks: ''
     @ (if truthy (tweaksBuildedObject b) then S (tweaksBuildedObject b) 8 else ''{}'')
     @ ''\<newline>''
     @ ''    }),\<newline>''
     @ ''  },\<newline>''
     @ '')\<newline>''
     @ ''  .then(res => res.json())\<newline>''
     @ ''  .then(data => console.log(data))\<newline>''
     @ ''  .catch(error => console.error('Error:', error));\<newline>''\<close>
proof (intro conjI)
  show \<open>prefix (''const payload = {\<newline>''
        @ ''    "input_value": "'' @ input_value a @ ''",\<newline>''
        @ ''    "output_type": "'' @ output_type a @ ''",\<newline>''
        @ ''    "input_type": "'' @ input_type a @ ''"''
        @ (if NewJsApiArgs.activeTweaks a \<and> truthy (tweaksObject a)
           then '',\<newline>    "tweaks": '' @ S (tweaksObject a) 2
           else '''')
        @ ''\<newline>''
        @ ''};\<newline>''
        @ ''const options = {\<newline>''
        @ ''    method: 'POST',\<newline>''
        @ ''    headers: {\<newline>''
        @ ''        'Content-Type': 'application/json'' @ [SQ]
        @ (if isAuthenticated a then '',\<newline>        "x-api-key": "YOUR-API-KEY"''
           else '''')
        @ ''\<newline>''
        @ ''    },\<newline>''
        @ ''    body: JSON.stringify(payload)\<newline>''
        @ ''};\<newline>'')
     (getNewJsApiCode S loc a)\<close>
    unfolding getNewJsApiCode_def Let_def
    by (simp only: append_assoc same_prefix_prefix) simp
  show \<open>sublist (''fetch('' @ [SQ] @ protocol loc @ ''//'' @ host loc @ ''/api/v1/run/''
            @ NewJsApiArgs.flowId a @ ''?stream=''
            @ (if streaming a then ''true'' else ''false'') @ [SQ])
     (getNewJsApiCode S loc a)\<close>
    unfolding getNewJsApiCode_def Let_def
    apply ((simp only: append_assoc)?)
    apply ((rule sublist_seg | rule sublist_skip)+)
    apply simp
    done
qed (simp only: getJsApiCode_def Let_def)

text \<open>
  Claim C1: the theorem at a sample input, where the start of the text is computed.
\<close>

theorem sample_code_text_witness:
  \<open>prefix (''const payload = {\<newline>''
        @ ''    "input_value": "hello",\<newline>''
        @ ''    "output_type": "text",\<newline>''
        @ ''    "input_type": "chat"\<newline>''
        @ ''};\<newline>''
        @ ''const options = {\<newline>''
        @ ''    method: 'POST',\<newline>''
        @ ''    headers: {\<newline>''
        @ ''        'Content-Type': 'application/json',\<newline>''
        @ ''        "x-api-key": "YOUR-API-KEY"\<newline>''
        @ ''    },\<newline>''
        @ ''    body: JSON.stringify(payload)\<newline>''
        @ ''};\<newline>'')
     (getNewJsApiCode sample_stringify sample_loc sample_new_args)\<close>
  using sample_code_text [of sample_new_args sample_stringify sample_loc]
  by (simp add: sample_new_args_def)


text \<open>
  Claim C1 as stated fails. For \<^verbatim>\<open>getNewJsApiCode\<close> with \<^verbatim>\<open>activeTweaks\<close> unset the text does
  not mention the tweaks at all although a tweaks object was passed, and it ends with
  \<^verbatim>\<open>fetch\<close> called on the URL alone, so that neither the method POST nor the body nor
  the headers reach the request. For \<^verbatim>\<open>getJsApiCode\<close> with an endpoint name and
  \<^verbatim>\<open>activeTweaks\<close> set the text neither addresses \<^verbatim>\<open>/api/v1/run/<flowId>\<close> nor passes a
  streaming flag other than the constant false nor carries an input value.
\<close>

theorem sample_code_counterexample:
  \<open>tweaksObject sample_new_args = JObj [(''Prompt-1'', JObj [(''template'', JStr ''x'')])] \<and>
   \<not> sublist ''tweaks'' (getNewJsApiCode sample_stringify sample_loc sample_new_args) \<and>
   suffix (''};\<newline>'' @ ''fetch('' @ [SQ] @ ''http://localhost:7860/api/v1/run/f1?stream=true''
           @ [SQ] @ '')\<newline>''
           @ ''    .then(response => response.json())\<newline>''
           @ ''    .then(response => console.log(response))\<newline>''
           @ ''    .catch(err => console.error(err));\<newline>''
           @ ''    '')
     (getNewJsApiCode sample_stringify sample_loc sample_new_args) \<and>
   GetCodeType.flowId sample_js_args = ''f1'' \<and>
   \<not> sublist ''/api/v1/run/f1''
       (getJsApiCode sample_stringify sample_loc sample_store sample_js_args) \<and>
   \<not> sublist ''stream=true''
       (getJsApiCode sample_stringify sample_loc sample_store sample_js_args) \<and>
   \<not> sublist ''input_value''
       (getJsApiCode sample_stringify sample_loc sample_store sample_js_args)\<close>
  by (simp add: getNewJsApiCode_def getJsApiCode_def sample_new_args_def sample_js_args_def
      sample_loc_def sample_store_def sample_stringify_def sublist_code suffix_to_prefix)

text \<open>
  Claim C4 as stated fails: with the same stringifier, location and parameter record,
  \<^verbatim>\<open>getJsApiCode\<close> returns different texts for two contents of the flow store.
\<close>

theorem getJsApiCode_reads_store_counterexample:
  "getJsApiCode sample_stringify sample_loc sample_chat_store sample_js_args
     \<noteq> getJsApiCode sample_stringify sample_loc sample_empty_store sample_js_args"
  by (simp add: getJsApiCode_def sample_chat_store_def sample_empty_store_def)

text \<open>
  Claim C4, as amended. The text returned by \<^verbatim>\<open>getJsApiCode\<close> is determined by its
  parameter record together with the protocol and host of \<^verbatim>\<open>window.location\<close> and with
  whether the flow store has an input of type ChatInput and an output of type
  ChatOutput: invocations that agree on these return the same text.
\<close>

theorem getJsApiCode_determined_by_args_and_environment:
  assumes "protocol loc = protocol loc'" and "host loc = host loc'"
    and "list_ex (\<lambda>input. port_type input = ''ChatInput'') (inputs store)
       = list_ex (\<lambda>input. port_type input = ''ChatInput'') (inputs store')"
    and "list_ex (\<lambda>output. port_type output = ''ChatOutput'') (outputs store)
       = list_ex (\<lambda>output. port_type output = ''ChatOutput'') (outputs store')"
  shows "getJsApiCode S loc store a = getJsApiCode S loc' store' a"
  unfolding getJsApiCode_def Let_def using assms by (simp only:)

text \<open>Claim C4: the amended theorem at two different stores without chat ports.\<close>

theorem getJsApiCode_determined_by_args_and_environment_witness:
  "sample_store \<noteq> sample_empty_store \<and>
   getJsApiCode sample_stringify sample_loc sample_store sample_js_args
     = getJsApiCode sample_stringify sample_loc sample_empty_store sample_js_args"
proof -
  have i: "list_ex (\<lambda>input. port_type input = ''ChatInput'') (inputs sample_store)
       = list_ex (\<lambda>input. port_type input = ''ChatInput'') (inputs sample_empty_store)"
    by (simp add: sample_store_def sample_empty_store_def)
  have o: "list_ex (\<lambda>output. port_type output = ''ChatOutput'') (outputs sample_store)
       = list_ex (\<lambda>output. port_type output = ''ChatOutput'') (outputs sample_empty_store)"
    by (simp add: sample_store_def sample_empty_store_def)
  have d: "sample_store \<noteq> sample_empty_store"
    by (simp add: sample_store_def sample_empty_store_def)
  show ?thesis
    using d getJsApiCode_determined_by_args_and_environment [OF refl refl i o]
    by simp
qed

text \<open>
  Claim C5. In the code returned by \<^verbatim>\<open>getJsApiCode\<close> the \<^verbatim>\<open>output_type\<close> field is
  \<^verbatim>\<open>"chat"\<close> when some output of the store has type ChatOutput and \<^verbatim>\<open>"text"\<close> otherwise,
  the \<^verbatim>\<open>input_type\<close> field is \<^verbatim>\<open>"chat"\<close> when some input has type ChatInput and
  \<^verbatim>\<open>"text"\<close> otherwise, and the text before and after these two tags is the same for
  all inputs and outputs of the store.
\<close>

theorem getJsApiCode_ports_decide_chat_or_text:
  \<open>\<exists>pre post. \<forall>ins outs.
      getJsApiCode S loc \<lparr>inputs = ins, outputs = outs\<rparr> a =
        pre @ ''      output_type: ''
        @ (if list_ex (\<lambda>output. port_type output = ''ChatOutput'') outs
           then ''"chat"'' else ''"text"'')
        @ '',\<newline>'' @ ''      input_type: ''
        @ (if list_ex (\<lambda>input. port_type input = ''ChatInput'') ins
           then ''"chat"'' else ''"text"'')
        @ post\<close>
  unfolding getJsApiCode_def Let_def
  apply (simp only: flowStore.simps)
  apply (rule exI [of _ \<open>(if GetCodeType.activeTweaks a then ''''
         else ''let inputValue = ""; // Insert input value here\<newline>\<newline>'')
        @ ''fetch(\<newline>''
        @ ''  "'' @ protocol loc @ ''//'' @ host loc @ ''/api/v1/run/''
        @ js_or (endpointName a) (GetCodeType.flowId a)
        @ ''?stream=false",\<newline>''
        @ ''  {\<newline>''
        @ ''    method: "POST",\<newline>''
        @ ''    headers: {\<newline>''
        @ ''      "Authorization": "Bearer <TOKEN>",\<newline>''
        @ ''      "Content-Type": "application/json",''
        @ (if isAuth a then ''\<newline>'' @ [TAB, TAB, TAB] @ ''"x-api-key": <your api key>''
           else '''')
        @ ''\<newline>''
        @ ''    },\<newline>''
        @ ''    body: JSON.stringify({''
        @ (if GetCodeType.activeTweaks a then ''''
           else ''\<newline>'' @ [TAB, TAB, TAB] @ ''input_value: inputValue, '')
        @ ''\<newline>''\<close>])
  apply (rule exI)
  apply (intro allI)
  apply (simp only: append_assoc same_append_eq)
  done


section \<open>Properties of the bulk duplication\<close>

lemma pending_left:
  "\<not> list_all (\<lambda>r. r = Fulfilled) rs \<Longrightarrow> Rejected \<notin> set rs \<Longrightarrow> Pending \<in> set rs"
proof (induction rs)
  case Nil
  then show ?case by simp
next
  case (Cons r rs)
  then show ?case by (cases r) auto
qed

lemma rejected_kept:
  assumes "Rejected \<in> set rs" and "i < length rs" and "rs ! i = Pending"
  shows "Rejected \<in> set (rs[i := v])"
proof -
  from assms(1) obtain j where j: "j < length rs" "rs ! j = Rejected"
    by (auto simp: in_set_conv_nth)
  with assms(3) have "j \<noteq> i" by auto
  with j have "rs[i := v] ! j = Rejected" "j < length (rs[i := v])" by simp_all
  then show ?thesis by (metis nth_mem)
qed

lemma no_rejected_update:
  "Rejected \<notin> set rs \<Longrightarrow> v \<noteq> Rejected \<Longrightarrow> Rejected \<notin> set (rs[i := v])"
  using set_update_subset_insert [of rs i v] by auto

lemma settle_all_inv_pending:
  assumes "length rs = length (selectedFlowsComponentsCards p)"
  shows "dup_inv p (settle_all p
           \<lparr>calls = issue_requests p, requests = rs, all_promise = Pending,
            then_promise = Pending, unhandled_rejection = False\<rparr>)"
  using assms pending_left [of rs]
  by (auto simp: dup_inv_def settle_all_def list_ex_iff)

lemma dup_inv_init: "dup_inv p (handleDuplicate p)"
  unfolding handleDuplicate_def by (rule settle_all_inv_pending) simp

lemma dup_inv_update:
  assumes inv: "dup_inv p s" and i: "i < length (requests s)" "requests s ! i = Pending"
  shows "dup_inv p (settle_all p (s\<lparr>requests := (requests s)[i := v]\<rparr>))"
proof (cases "all_promise s")
  case Pending
  with inv have s: "s = \<lparr>calls = issue_requests p, requests = requests s, all_promise = Pending,
            then_promise = Pending, unhandled_rejection = False\<rparr>"
    by (simp add: dup_inv_def)
  have "dup_inv p (settle_all p
           \<lparr>calls = issue_requests p, requests = (requests s)[i := v], all_promise = Pending,
            then_promise = Pending, unhandled_rejection = False\<rparr>)"
    using inv by (intro settle_all_inv_pending) (simp add: dup_inv_def)
  moreover have "s\<lparr>requests := (requests s)[i := v]\<rparr> = \<lparr>calls = issue_requests p, requests = (requests s)[i := v], all_promise = Pending,
            then_promise = Pending, unhandled_rejection = False\<rparr>"
    by (subst s) simp
  ultimately show ?thesis by simp
next
  case Fulfilled
  with inv have "list_all (\<lambda>r. r = Fulfilled) (requests s)" by (simp add: dup_inv_def)
  with i have False by (auto simp: list_all_length)
  then show ?thesis ..
next
  case Rejected
  with inv i show ?thesis
    by (simp add: dup_inv_def settle_all_def rejected_kept)
qed

lemma dup_inv_settle: "dup_inv p s \<Longrightarrow> dup_inv p (settle p s ev)"
  by (cases ev) (simp_all add: dup_inv_update)

lemma dup_inv_foldl: "dup_inv p s \<Longrightarrow> dup_inv p (foldl (settle p) s evs)"
  by (induction evs arbitrary: s) (simp_all add: dup_inv_settle)

lemma dup_inv_run: "dup_inv p (run_duplicate p evs)"
  unfolding run_duplicate_def by (rule dup_inv_foldl) (rule dup_inv_init)

lemma filter_issue: "filter is_AddFlow (issue_requests p) = issue_requests p"
  by (simp add: issue_requests_def)

lemma filter_on_fulfilled: "filter is_AddFlow (on_fulfilled p) = []"
  by (simp add: on_fulfilled_def)

lemma on_fulfilled_no_AddFlow: "c \<in> set (on_fulfilled p) \<Longrightarrow> \<not> is_AddFlow c"
  by (auto simp: on_fulfilled_def split: if_splits)

lemma issue_all_AddFlow: "c \<in> set (issue_requests p) \<Longrightarrow> is_AddFlow c"
  by (auto simp: issue_requests_def)

lemma requests_settle_all: "requests (settle_all p s) = requests s"
  by (simp add: settle_all_def)

lemma fulfilled_by_event:
  assumes "j < length (requests (settle p s ev))"
    and "requests (settle p s ev) ! j = Fulfilled"
  shows "requests s ! j = Fulfilled \<or> ev = Resolve j"
  using assms
  by (cases ev) (auto simp: requests_settle_all nth_list_update split: if_splits)

lemma length_requests_settle: "length (requests (settle p s ev)) = length (requests s)"
  by (cases ev) (simp_all add: requests_settle_all)

lemma requests_handleDuplicate:
  "requests (handleDuplicate p) = map (\<lambda>_. Pending) (selectedFlowsComponentsCards p)"
  by (simp add: handleDuplicate_def requests_settle_all)

lemma fulfilled_needs_resolve:
  "j < length (requests (run_duplicate p evs)) \<Longrightarrow>
   requests (run_duplicate p evs) ! j = Fulfilled \<Longrightarrow> Resolve j \<in> set evs"
proof (induction evs rule: rev_induct)
  case Nil
  then show ?case by (simp add: run_duplicate_def requests_handleDuplicate)
next
  case (snoc ev evs)
  have run: "run_duplicate p (evs @ [ev]) = settle p (run_duplicate p evs) ev"
    by (simp add: run_duplicate_def)
  from snoc.prems have j: "j < length (requests (run_duplicate p evs))"
    by (simp add: run length_requests_settle)
  from snoc.prems have "requests (run_duplicate p evs) ! j = Fulfilled \<or> ev = Resolve j"
    unfolding run by (intro fulfilled_by_event) simp_all
  with snoc.IH j show ?case by auto
qed

lemma calls_handleDuplicate:
  "selectedFlowsComponentsCards p \<noteq> [] \<Longrightarrow> calls (handleDuplicate p) = issue_requests p"
  by (cases "selectedFlowsComponentsCards p")
     (simp_all add: handleDuplicate_def settle_all_def)

text \<open>
  Claim C2. For a non-empty selection, \<^verbatim>\<open>handleDuplicate\<close> itself makes exactly the
  \<^verbatim>\<open>addFlow\<close> calls, one per selected identifier and in order, and leaves every one of
  these requests pending. In every state that the run reaches by a sequence of
  settlement events, the \<^verbatim>\<open>addFlow\<close> calls made are still exactly these and there is one
  request per selected identifier. A call other than \<^verbatim>\<open>addFlow\<close> (the refresh steps, the
  clearing of the selection) has been made only if for every selected identifier the
  fulfilment of its request is among the events that happened, so that no request is
  pending any more; and once all requests are fulfilled the calls are the requests
  followed by the body of the continuation.
\<close>

theorem handleDuplicate_refresh_after_all_settled:
  assumes "selectedFlowsComponentsCards p \<noteq> []"
  shows "calls (handleDuplicate p) = issue_requests p \<and>
         requests (handleDuplicate p) = map (\<lambda>_. Pending) (selectedFlowsComponentsCards p) \<and>
         filter is_AddFlow (calls (run_duplicate p evs)) =
           map (\<lambda>selectedFlow.
                  AddFlow True (find (\<lambda>flow. flow_id flow = selectedFlow) (allFlows p)))
               (selectedFlowsComponentsCards p) \<and>
         length (requests (run_duplicate p evs)) = length (selectedFlowsComponentsCards p) \<and>
         ((\<exists>c \<in> set (calls (run_duplicate p evs)). \<not> is_AddFlow c) \<longrightarrow>
            (\<forall>i < length (selectedFlowsComponentsCards p). Resolve i \<in> set evs) \<and>
            Pending \<notin> set (requests (run_duplicate p evs)) \<and>
            list_all (\<lambda>r. r = Fulfilled) (requests (run_duplicate p evs))) \<and>
         (list_all (\<lambda>r. r = Fulfilled) (requests (run_duplicate p evs)) \<longrightarrow>
            calls (run_duplicate p evs) = issue_requests p @ on_fulfilled p)"
proof -
  let ?s = "run_duplicate p evs"
  have inv: "dup_inv p ?s" by (rule dup_inv_run)
  have calls: "calls ?s = issue_requests p \<or> calls ?s = issue_requests p @ on_fulfilled p"
    using inv by (cases "all_promise ?s") (simp_all add: dup_inv_def)
  then have 1: "filter is_AddFlow (calls ?s) = issue_requests p"
    by (auto simp: filter_issue filter_on_fulfilled)
  have 2: "length (requests ?s) = length (selectedFlowsComponentsCards p)"
    using inv by (simp add: dup_inv_def)
  have 3: "list_all (\<lambda>r. r = Fulfilled) (requests ?s)"
    if "\<exists>c \<in> set (calls ?s). \<not> is_AddFlow c"
    using inv that by (cases "all_promise ?s") (auto simp: dup_inv_def issue_all_AddFlow)
  have 4: "Pending \<notin> set (requests ?s)" if "list_all (\<lambda>r. r = Fulfilled) (requests ?s)"
    using that by (auto simp: list_all_iff)
  have 5: "calls ?s = issue_requests p @ on_fulfilled p"
    if "list_all (\<lambda>r. r = Fulfilled) (requests ?s)"
    using inv assms that by (cases "all_promise ?s") (auto simp: dup_inv_def list_all_iff)
  have 6: "Resolve i \<in> set evs"
    if "list_all (\<lambda>r. r = Fulfilled) (requests ?s)"
      and "i < length (selectedFlowsComponentsCards p)" for i
    using that 2 fulfilled_needs_resolve [of i p evs] by (simp add: list_all_length)
  from 1 2 3 4 5 6 calls_handleDuplicate [OF assms] requests_handleDuplicate [of p]
  show ?thesis
    unfolding issue_requests_def by blast
qed


text \<open>Claim C2: the theorem at a run in which both requests of a selection are fulfilled.\<close>

theorem handleDuplicate_refresh_after_all_settled_witness:
  "selectedFlowsComponentsCards sample_dup \<noteq> [] \<and>
   (\<exists>c \<in> set (calls (run_duplicate sample_dup [Resolve 1, Resolve 0])). \<not> is_AddFlow c) \<and>
   Resolve 0 \<in> set [Resolve 1, Resolve 0] \<and> Resolve 1 \<in> set [Resolve 1, Resolve 0] \<and>
   list_all (\<lambda>r. r = Fulfilled) (requests (run_duplicate sample_dup [Resolve 1, Resolve 0])) \<and>
   calls (run_duplicate sample_dup [Resolve 1, Resolve 0]) =
     [AddFlow True (Some \<lparr>flow_id = ''a''\<rparr>), AddFlow True None, ResetFilter,
      GetFoldersApi True, GetFolderById (Some ''c''), SetSelectedFlowsComponentsCards [],
      SetSuccessData ''Flows duplicated successfully'']"
proof -
  have h: "selectedFlowsComponentsCards sample_dup \<noteq> []"
    by (simp add: sample_dup_def)
  have r: "run_duplicate sample_dup [Resolve 1, Resolve 0] =
     \<lparr>calls = [AddFlow True (Some \<lparr>flow_id = ''a''\<rparr>), AddFlow True None, ResetFilter,
        GetFoldersApi True, GetFolderById (Some ''c''), SetSelectedFlowsComponentsCards [],
        SetSuccessData ''Flows duplicated successfully''],
      requests = [Fulfilled, Fulfilled], all_promise = Fulfilled, then_promise = Fulfilled,
      unhandled_rejection = False\<rparr>"
    by (simp add: run_duplicate_def handleDuplicate_def settle_all_def sample_dup_def
        issue_requests_def on_fulfilled_def)
  have f: "list_all (\<lambda>r. r = Fulfilled)
             (requests (run_duplicate sample_dup [Resolve 1, Resolve 0]))"
    using r by simp
  have e: "\<exists>c \<in> set (calls (run_duplicate sample_dup [Resolve 1, Resolve 0])). \<not> is_AddFlow c"
    using r by simp
  from handleDuplicate_refresh_after_all_settled [OF h, of "[Resolve 1, Resolve 0]"] f
  have "calls (run_duplicate sample_dup [Resolve 1, Resolve 0])
          = issue_requests sample_dup @ on_fulfilled sample_dup"
    by blast
  then have "calls (run_duplicate sample_dup [Resolve 1, Resolve 0]) =
     [AddFlow True (Some \<lparr>flow_id = ''a''\<rparr>), AddFlow True None, ResetFilter,
      GetFoldersApi True, GetFolderById (Some ''c''), SetSelectedFlowsComponentsCards [],
      SetSuccessData ''Flows duplicated successfully'']"
    by (simp add: issue_requests_def on_fulfilled_def sample_dup_def)
  with h e f show ?thesis by simp
qed

text \<open>
  Claim C3. If a request of a run of \<^verbatim>\<open>handleDuplicate\<close> has been rejected, then in every
  state reached afterwards the calls made are only the original \<^verbatim>\<open>addFlow\<close> calls (no
  retry, no compensating call, no message to the user, and the continuation has not
  run), the aggregate promise and the promise returned by \<^verbatim>\<open>then\<close> are rejected, and the
  rejection has no handler.
\<close>

theorem handleDuplicate_failure_not_handled:
  assumes "Rejected \<in> set (requests (run_duplicate p evs))"
  shows "calls (run_duplicate p evs) = issue_requests p \<and>
         all_promise (run_duplicate p evs) = Rejected \<and>
         then_promise (run_duplicate p evs) = Rejected \<and>
         unhandled_rejection (run_duplicate p evs)"
proof -
  let ?s = "run_duplicate p evs"
  have inv: "dup_inv p ?s" by (rule dup_inv_run)
  from inv assms have r: "all_promise ?s = Rejected"
    by (cases "all_promise ?s") (auto simp: dup_inv_def list_all_iff)
  with inv show ?thesis by (simp add: dup_inv_def)
qed

text \<open>
  Claim C3: the theorem at a run in which the second request is fulfilled, the first is
  rejected and a late resolution of the first is ignored.
\<close>

theorem handleDuplicate_failure_not_handled_witness:
  "Rejected \<in> set (requests (run_duplicate sample_dup [Resolve 1, Reject 0, Resolve 0])) \<and>
   calls (run_duplicate sample_dup [Resolve 1, Reject 0, Resolve 0]) =
     [AddFlow True (Some \<lparr>flow_id = ''a''\<rparr>), AddFlow True None] \<and>
   unhandled_rejection (run_duplicate sample_dup [Resolve 1, Reject 0, Resolve 0])"
proof -
  have r: "requests (run_duplicate sample_dup [Resolve 1, Reject 0, Resolve 0])
             = [Rejected, Fulfilled]"
    by (simp add: run_duplicate_def handleDuplicate_def settle_all_def sample_dup_def)
  then have h: "Rejected \<in> set (requests (run_duplicate sample_dup [Resolve 1, Reject 0, Resolve 0]))"
    by simp
  from handleDuplicate_failure_not_handled [OF h]
  have "calls (run_duplicate sample_dup [Resolve 1, Reject 0, Resolve 0])
          = issue_requests sample_dup"
    and u: "unhandled_rejection (run_duplicate sample_dup [Resolve 1, Reject 0, Resolve 0])"
    by blast+
  then have "calls (run_duplicate sample_dup [Resolve 1, Reject 0, Resolve 0]) =
     [AddFlow True (Some \<lparr>flow_id = ''a''\<rparr>), AddFlow True None]"
    by (simp add: issue_requests_def sample_dup_def)
  with h u show ?thesis by blast
qed

section \<open>Properties of the file row\<close>

lemma split_on_nonempty: "split_on c s \<noteq> []"
  by (induction s) (auto split: list.splits)

lemma split_on_no_sep: "c \<notin> set s \<Longrightarrow> split_on c s = [s]"
  by (induction s) auto

lemma split_on_append:
  "\<exists>ws. ws \<noteq> [] \<and> split_on c (a @ c # b) = ws @ split_on c b"
proof (induction a)
  case Nil
  have "split_on c ([] @ c # b) = [[]] @ split_on c b" by simp
  then show ?case by blast
next
  case (Cons x a)
  then obtain w ws where ws: "split_on c (a @ c # b) = (w # ws) @ split_on c b"
    by (metis neq_Nil_conv)
  show ?case
  proof (cases "x = c")
    case True
    with ws have "split_on c ((x # a) @ c # b) = ([] # w # ws) @ split_on c b" by simp
    then show ?thesis by blast
  next
    case False
    with ws have "split_on c ((x # a) @ c # b) = ((x # w) # ws) @ split_on c b" by simp
    then show ?thesis by blast
  qed
qed

lemma last_split_on_append:
  "last (split_on c (a @ c # b)) = last (split_on c b)"
  using split_on_append [of c a b] by (auto simp: split_on_nonempty)

lemma file_type_no_dot: "CHR ''.'' \<notin> set (path f) \<Longrightarrow> file_type f = path f"
  by (simp add: file_type_def pop_def split_on_no_sep)

lemma file_type_after_last_dot:
  "path f = a @ ''.'' @ b \<Longrightarrow> CHR ''.'' \<notin> set b \<Longrightarrow> file_type f = b"
  using last_split_on_append [of "CHR ''.''" a b]
  by (simp add: file_type_def pop_def split_on_nonempty split_on_no_sep)

text \<open>
  Claim C6, as amended. While a file is being renamed (the editor is open), the rendered
  row contains the rename input showing the current text with its key handler, and
  pressing Enter in it closes the editor; when a rename callback is supplied it is
  called exactly once, with the id of the file and the current text of the input (after
  typing a text \<open>v\<close>, with that text), and when none is supplied nothing is called.
\<close>

theorem enter_closes_editor_and_renames:
  assumes "openRename st"
  shows "Input (newName st)
           [(''onChange'', InputChange), (''onBlur'', InputBlur),
            (''onKeyDown'', InputKeyDown), (''onClick'', InputClick)]
           \<in> set (subnodes (FileRendererComponent FILE_ICONS p st)) \<and>
         dispatch p st InputKeyDown ''Enter'' =
           (\<lparr>openRename = False, newName = name (file p)\<rparr>,
            if handleRename p then [CallRename (file_id (file p)) (newName st)] else []) \<and>
         snd (dispatch p (fst (dispatch p st InputChange v)) InputKeyDown ''Enter'') =
           (if handleRename p then [CallRename (file_id (file p)) v] else [])"
  using assms
  by (simp add: FileRendererComponent_def render_name_def dispatch_def
      useEffect_openRename_def optional_call_def)

text \<open>Claim C6: the theorem at a sample file whose editor is open.\<close>

theorem enter_closes_editor_and_renames_witness:
  "openRename sample_open \<and> handleRename sample_props \<and>
   dispatch sample_props sample_open InputKeyDown ''Enter'' =
     (\<lparr>openRename = False, newName = ''notes.xyz''\<rparr>, [CallRename ''42'' ''draft''])"
proof -
  have h: "openRename sample_open" by (simp add: sample_open_def)
  have c: "handleRename sample_props" by (simp add: sample_props_def)
  from enter_closes_editor_and_renames [OF h, where p = sample_props] c
  have "dispatch sample_props sample_open InputKeyDown ''Enter'' =
           (\<lparr>openRename = False, newName = name (file sample_props)\<rparr>,
            [CallRename (file_id (file sample_props)) (newName sample_open)])"
    by simp
  then have "dispatch sample_props sample_open InputKeyDown ''Enter'' =
     (\<lparr>openRename = False, newName = ''notes.xyz''\<rparr>, [CallRename ''42'' ''draft''])"
    by (simp add: sample_props_def sample_file_def sample_open_def)
  with h c show ?thesis by blast
qed

text \<open>
  Claim C6 as stated fails: for a row without a rename callback a double click on the
  name opens the editor, and pressing Enter there closes it without any call.
\<close>

theorem enter_without_callback_counterexample:
  "\<not> handleRename (sample_props\<lparr>handleRename := False\<rparr>) \<and>
   openRename (fst (dispatch (sample_props\<lparr>handleRename := False\<rparr>)
                      (mount (sample_props\<lparr>handleRename := False\<rparr>)) NameDoubleClick [])) \<and>
   dispatch (sample_props\<lparr>handleRename := False\<rparr>)
     (fst (dispatch (sample_props\<lparr>handleRename := False\<rparr>)
             (mount (sample_props\<lparr>handleRename := False\<rparr>)) NameDoubleClick []))
     InputKeyDown ''Enter''
     = (\<lparr>openRename = False, newName = ''notes.xyz''\<rparr>, [])"
  by (simp add: dispatch_def useEffect_openRename_def optional_call_def mount_def
      not_progress_def sample_props_def sample_file_def)

text \<open>
  Claim C7. For a file whose progress is the failure value -1, the rendered row contains
  the label with the text "Upload failed, try again?", whose "try again?" part carries a
  click handler, and that handler changes no state and has no effect other than stopping
  the propagation of the event.
\<close>

theorem failed_upload_try_again_inert:
  assumes "progress (file p) = Some (- 1)"
  shows "Elem ''span'' [''text-[13px] text-primary''] []
           [Text ''Upload failed,'', Text '' '',
            Elem ''span'' [''cursor-pointer text-accent-pink-foreground underline'']
              [(''onClick'', TryAgainClick)] [Text ''try again?'']]
           \<in> set (subnodes (FileRendererComponent FILE_ICONS p st)) \<and>
         static_text
           (Elem ''span'' [''text-[13px] text-primary''] []
              [Text ''Upload failed,'', Text '' '',
               Elem ''span'' [''cursor-pointer text-accent-pink-foreground underline'']
                 [(''onClick'', TryAgainClick)] [Text ''try again?'']])
           = ''Upload failed, try again?'' \<and>
         dispatch p st TryAgainClick v = (st, [StopPropagation])"
  using assms
  by (simp add: FileRendererComponent_def render_failed_def dispatch_def
      useEffect_openRename_def)

text \<open>Claim C7: the theorem at a sample file whose upload failed.\<close>

theorem failed_upload_try_again_inert_witness:
  "progress (file (sample_props\<lparr>file := sample_file\<lparr>progress := Some (- 1)\<rparr>\<rparr>)) = Some (- 1) \<and>
   dispatch (sample_props\<lparr>file := sample_file\<lparr>progress := Some (- 1)\<rparr>\<rparr>) sample_closed
     TryAgainClick [] = (sample_closed, [StopPropagation])"
proof -
  have h: "progress (file (sample_props\<lparr>file := sample_file\<lparr>progress := Some (- 1)\<rparr>\<rparr>))
             = Some (- 1)"
    by simp
  from failed_upload_try_again_inert [OF h, where st = sample_closed and v = "[]"] h
  show ?thesis by blast
qed

text \<open>
  Claim C8. For a file whose progress is exactly 0, a click on the row and a double click
  on the name do exactly what they do for the same file without a progress field: the
  click calls the file-select callback (when one is supplied) with the path of the file,
  the double click opens the rename editor, and the name is rendered the same way.
\<close>

theorem zero_progress_like_no_progress:
  assumes "progress (file p) = Some 0"
  shows "dispatch p st RowClick v
           = dispatch (p\<lparr>file := (file p)\<lparr>progress := None\<rparr>\<rparr>) st RowClick v \<and>
         (handleFileSelect p \<longrightarrow>
            dispatch p st RowClick v = (st, [CallFileSelect (path (file p))])) \<and>
         dispatch p st NameDoubleClick v
           = dispatch (p\<lparr>file := (file p)\<lparr>progress := None\<rparr>\<rparr>) st NameDoubleClick v \<and>
         openRename (fst (dispatch p st NameDoubleClick v)) \<and>
         render_name p st = render_name (p\<lparr>file := (file p)\<lparr>progress := None\<rparr>\<rparr>) st"
  using assms
  by (simp add: dispatch_def useEffect_openRename_def not_progress_def optional_call_def
      render_name_def)

text \<open>Claim C8: the theorem at a sample file at zero percent.\<close>

theorem zero_progress_like_no_progress_witness:
  "progress (file (sample_props\<lparr>file := sample_file\<lparr>progress := Some 0\<rparr>\<rparr>)) = Some 0 \<and>
   handleFileSelect (sample_props\<lparr>file := sample_file\<lparr>progress := Some 0\<rparr>\<rparr>) \<and>
   dispatch (sample_props\<lparr>file := sample_file\<lparr>progress := Some 0\<rparr>\<rparr>) sample_closed RowClick []
     = (sample_closed, [CallFileSelect ''user/notes.xyz'']) \<and>
   openRename (fst (dispatch (sample_props\<lparr>file := sample_file\<lparr>progress := Some 0\<rparr>\<rparr>)
     sample_closed NameDoubleClick []))"
proof -
  let ?p = "sample_props\<lparr>file := sample_file\<lparr>progress := Some 0\<rparr>\<rparr>"
  have h: "progress (file ?p) = Some 0" by simp
  have s: "handleFileSelect ?p" by (simp add: sample_props_def)
  from zero_progress_like_no_progress [OF h, where st = sample_closed and v = "[]"] s
  have "dispatch ?p sample_closed RowClick [] = (sample_closed, [CallFileSelect (path (file ?p))])"
    and o: "openRename (fst (dispatch ?p sample_closed NameDoubleClick []))"
    by blast+
  then have "dispatch ?p sample_closed RowClick []
               = (sample_closed, [CallFileSelect ''user/notes.xyz''])"
    by (simp add: sample_file_def)
  with h s o show ?thesis by blast
qed

text \<open>
  Claim C9. The extension of a path is the whole path when it has no dot and the part
  after its last dot otherwise. For a file whose extension has no entry in
  \<^verbatim>\<open>FILE_ICONS\<close>, the icon lookup gives the name "File" and no colour, and the leading
  element of the row is the icon "File" without a colour class when the file has no
  progress field, the icon "File" with the placeholder class when the progress is -1,
  and the percentage label (which involves no lookup) for any other progress.
\<close>

theorem unknown_extension_falls_back:
  assumes "FILE_ICONS (file_type (file p)) = None"
  shows "(CHR ''.'' \<notin> set (path (file p)) \<longrightarrow> file_type (file p) = path (file p)) \<and>
         (\<forall>a b. path (file p) = a @ ''.'' @ b \<and> CHR ''.'' \<notin> set b \<longrightarrow>
                file_type (file p) = b) \<and>
         icon_name FILE_ICONS (file_type (file p)) = ''File'' \<and>
         icon_color FILE_ICONS (file_type (file p)) = None \<and>
         render_leading FILE_ICONS p =
           (case progress (file p) of
              None \<Rightarrow> ForwardedIconComponent ''File'' [''h-6 w-6 shrink-0'']
            | Some q \<Rightarrow>
                if q = - 1
                then ForwardedIconComponent ''File''
                       [''h-6 w-6 shrink-0'', ''text-placeholder-foreground'']
                else Elem ''div''
                 [''flex h-6 items-center justify-center text-xs font-semibold text-muted-foreground'']
                 [] [RoundedPercent q, Text ''%''])"
  using assms file_type_no_dot [of "file p"] file_type_after_last_dot [of "file p"]
  by (auto simp: icon_name_def icon_color_def render_leading_def split: option.splits)

text \<open>
  Claim C9: the theorem at a sample file with the extension xyz and a table that only
  knows json.
\<close>

theorem unknown_extension_falls_back_witness:
  "[''json'' \<mapsto> \<lparr>icon = Some ''FileJson'', color = Some ''text-datatype-indigo''\<rparr>]
     (file_type (file sample_props)) = None \<and>
   file_type (file sample_props) = ''xyz'' \<and>
   render_leading
     [''json'' \<mapsto> \<lparr>icon = Some ''FileJson'', color = Some ''text-datatype-indigo''\<rparr>]
     sample_props = ForwardedIconComponent ''File'' [''h-6 w-6 shrink-0'']"
proof -
  let ?T = "[''json'' \<mapsto> \<lparr>icon = Some ''FileJson'', color = Some ''text-datatype-indigo''\<rparr>]"
  have p: "path (file sample_props) = ''user/notes'' @ ''.'' @ ''xyz'' \<and> CHR ''.'' \<notin> set ''xyz''"
    by (simp add: sample_props_def sample_file_def)
  have t: "file_type (file sample_props) = ''xyz''"
    by (simp add: file_type_def pop_def sample_props_def sample_file_def)
  have h: "?T (file_type (file sample_props)) = None"
    by (simp add: t)
  from unknown_extension_falls_back [where FILE_ICONS = "?T" and p = sample_props] h
  have "render_leading ?T sample_props =
          (case progress (file sample_props) of
              None \<Rightarrow> ForwardedIconComponent ''File'' [''h-6 w-6 shrink-0'']
            | Some q \<Rightarrow>
                if q = - 1
                then ForwardedIconComponent ''File''
                       [''h-6 w-6 shrink-0'', ''text-placeholder-foreground'']
                else Elem ''div''
                 [''flex h-6 items-center justify-center text-xs font-semibold text-muted-foreground'']
                 [] [RoundedPercent q, Text ''%''])"
    by blast
  then have "render_leading ?T sample_props = ForwardedIconComponent ''File'' [''h-6 w-6 shrink-0'']"
    by (simp add: sample_props_def sample_file_def)
  with h t show ?thesis by blast
qed

text \<open>
  Claim C10, as amended. A blur of the open rename input closes the editor; when a rename
  callback is supplied it is called with the id of the file and the current buffer, and
  when none is supplied nothing is called. Opening the editor (by a double click on the
  name, or from the context menu, which needs the callback) sets the buffer to the
  current name of the file, so that a blur right after opening passes the unchanged name
  to the callback.
\<close>

theorem blur_closes_editor_and_renames:
  "(openRename st \<longrightarrow>
      dispatch p st InputBlur v =
        (\<lparr>openRename = False, newName = name (file p)\<rparr>,
         if handleRename p then [CallRename (file_id (file p)) (newName st)] else [])) \<and>
   (\<not> openRename st \<and> not_progress (file p) \<longrightarrow>
      openRename (fst (dispatch p st NameDoubleClick v)) \<and>
      newName (fst (dispatch p st NameDoubleClick v)) = name (file p) \<and>
      dispatch p (fst (dispatch p st NameDoubleClick v)) InputBlur v' =
        (\<lparr>openRename = False, newName = name (file p)\<rparr>,
         if handleRename p then [CallRename (file_id (file p)) (name (file p))] else [])) \<and>
   (\<not> openRename st \<and> handleRename p \<longrightarrow>
      openRename (fst (dispatch p st HandleOpenRename v)) \<and>
      newName (fst (dispatch p st HandleOpenRename v)) = name (file p) \<and>
      dispatch p (fst (dispatch p st HandleOpenRename v)) InputBlur v' =
        (\<lparr>openRename = False, newName = name (file p)\<rparr>,
         [CallRename (file_id (file p)) (name (file p))]))"
  by (simp add: dispatch_def useEffect_openRename_def optional_call_def)

text \<open>
  Claim C10: the theorem at a sample file: a blur of the open editor, and a blur right
  after opening the closed row, whose stale buffer differs from the name, by a double
  click and from the context menu.
\<close>

theorem blur_closes_editor_and_renames_witness:
  "handleRename sample_props \<and> openRename sample_open \<and>
   dispatch sample_props sample_open InputBlur [] =
     (\<lparr>openRename = False, newName = ''notes.xyz''\<rparr>, [CallRename ''42'' ''draft'']) \<and>
   \<not> openRename (sample_closed\<lparr>newName := ''stale''\<rparr>) \<and> not_progress (file sample_props) \<and>
   dispatch sample_props
     (fst (dispatch sample_props (sample_closed\<lparr>newName := ''stale''\<rparr>) NameDoubleClick []))
     InputBlur [] =
     (\<lparr>openRename = False, newName = ''notes.xyz''\<rparr>, [CallRename ''42'' ''notes.xyz'']) \<and>
   dispatch sample_props
     (fst (dispatch sample_props (sample_closed\<lparr>newName := ''stale''\<rparr>) HandleOpenRename []))
     InputBlur [] =
     (\<lparr>openRename = False, newName = ''notes.xyz''\<rparr>, [CallRename ''42'' ''notes.xyz''])"
proof -
  have h: "handleRename sample_props" by (simp add: sample_props_def)
  have o: "openRename sample_open" by (simp add: sample_open_def)
  have c: "\<not> openRename (sample_closed\<lparr>newName := ''stale''\<rparr>)"
    by (simp add: sample_closed_def)
  have n: "not_progress (file sample_props)"
    by (simp add: not_progress_def sample_props_def sample_file_def)
  have v: "name (file sample_props) = ''notes.xyz''" "file_id (file sample_props) = ''42''"
    "newName sample_open = ''draft''"
    by (simp_all add: sample_props_def sample_file_def sample_open_def)
  from blur_closes_editor_and_renames
    [where p = sample_props and st = sample_open and v = "[]"] o h
  have 1: "dispatch sample_props sample_open InputBlur [] =
     (\<lparr>openRename = False, newName = ''notes.xyz''\<rparr>, [CallRename ''42'' ''draft''])"
    by (simp add: v)
  from blur_closes_editor_and_renames
    [where p = sample_props and st = "sample_closed\<lparr>newName := ''stale''\<rparr>"
       and v = "[]" and v' = "[]"] c n h
  have 2: "dispatch sample_props
     (fst (dispatch sample_props (sample_closed\<lparr>newName := ''stale''\<rparr>) NameDoubleClick []))
     InputBlur [] =
     (\<lparr>openRename = False, newName = ''notes.xyz''\<rparr>, [CallRename ''42'' ''notes.xyz''])"
    and 3: "dispatch sample_props
     (fst (dispatch sample_props (sample_closed\<lparr>newName := ''stale''\<rparr>) HandleOpenRename []))
     InputBlur [] =
     (\<lparr>openRename = False, newName = ''notes.xyz''\<rparr>, [CallRename ''42'' ''notes.xyz''])"
    by (simp_all add: v)
  from h o c n 1 2 3 show ?thesis by blast
qed

text \<open>
  Claim C10 as stated fails: for a row without a rename callback a double click on the
  name opens the editor, and a blur there closes it without any call.
\<close>

theorem blur_without_callback_counterexample:
  "\<not> handleRename (sample_props\<lparr>handleRename := False\<rparr>) \<and>
   openRename (fst (dispatch (sample_props\<lparr>handleRename := False\<rparr>)
                      (mount (sample_props\<lparr>handleRename := False\<rparr>)) NameDoubleClick [])) \<and>
   dispatch (sample_props\<lparr>handleRename := False\<rparr>)
     (fst (dispatch (sample_props\<lparr>handleRename := False\<rparr>)
             (mount (sample_props\<lparr>handleRename := False\<rparr>)) NameDoubleClick []))
     InputBlur []
     = (\<lparr>openRename = False, newName = ''notes.xyz''\<rparr>, [])"
  by (simp add: dispatch_def useEffect_openRename_def optional_call_def mount_def
      not_progress_def sample_props_def sample_file_def)


end
